theory Spec2Isabelle
  imports Complex_Main "HOL-Library.Multiset"
begin

section \<open>Errors\<close>

text \<open>
  The errors the functions of this file raise: the \<^verbatim>\<open>ValueError\<close> of
  \<^verbatim>\<open>limit_dark\<close>, the \<^verbatim>\<open>UnboundLocalError\<close> of reading the local
  \<^verbatim>\<open>result\<close> of \<^verbatim>\<open>_frames_since_bookmark\<close> before any assignment to it, and
  the engine's \<^verbatim>\<open>vapoursynth.Error\<close>, which slicing a clip raises when the slice
  holds no frame.
\<close>

datatype error = ValueError | UnboundLocalError | VapourSynthError

text \<open>A statement that raised ends the function; otherwise the next one runs.\<close>

fun and_then :: "error + 'a \<Rightarrow> ('a \<Rightarrow> error + 'b) \<Rightarrow> error + 'b" where
  "and_then (Inl e) f = Inl e"
| "and_then (Inr x) f = f x"

section \<open>Clips as sequences of frames\<close>

text \<open>
  The functions of \<^verbatim>\<open>lvsfunc/misc.py\<close> work on clips (\<^verbatim>\<open>vs.VideoNode\<close>): ordered,
  indexable sequences of frames of one opaque type. A clip is a list of frames here,
  \<^verbatim>\<open>num_frames\<close> is its length and \<^verbatim>\<open>a + b\<close> is concatenation. The bounds of a
  slice \<^verbatim>\<open>clip[lo:hi]\<close> are read as those of every Python slice: a bound that is left
  out is the end of the sequence on its side, a negative bound counts from the end, and
  every bound is clamped into \<open>[0, len]\<close>. The engine then trims the clip to the frames from
  the first bound up to the second, and refuses to make a clip with no frame: when the
  second bound is not greater than the first, the slice raises \<^verbatim>\<open>vapoursynth.Error\<close>.
\<close>

definition num_frames :: "'a list \<Rightarrow> int" where
  "num_frames clip = int (length clip)"

definition slice_bound :: "int \<Rightarrow> int \<Rightarrow> int" where
  "slice_bound n i = (if i < 0 then max (i + n) 0 else min i n)"

definition slice :: "'a list \<Rightarrow> int option \<Rightarrow> int option \<Rightarrow> error + 'a list" where
  "slice clip lo hi =
     (let n = num_frames clip;
          first = (case lo of None \<Rightarrow> 0 | Some i \<Rightarrow> slice_bound n i);
          stop = (case hi of None \<Rightarrow> n | Some j \<Rightarrow> slice_bound n j)
      in if stop \<le> first then Inl VapourSynthError
         else Inr (take (nat (stop - first)) (drop (nat first) clip)))"

section \<open>replace_ranges\<close>

text \<open>
  An entry of \<^verbatim>\<open>ranges\<close> is an \<^verbatim>\<open>int\<close> (a single frame) or a tuple of two
  (an inclusive range): \<^verbatim>\<open>List[Union[int, Tuple[int, int]]]\<close>.
\<close>

datatype frame_range = Frame int | Span int int

text \<open>
  \<^verbatim>\<open>if type(r) is tuple: start, end = r  else: start = r; end = r\<close>
\<close>

fun bounds :: "frame_range \<Rightarrow> int \<times> int" where
  "bounds (Span start stop) = (start, stop)"
| "bounds (Frame r) = (r, r)"

text \<open>
  The body of the loop, from the working clip \<^verbatim>\<open>out\<close> to the next one, or to the
  error of the first slice that raises:
  \<^verbatim>\<open>
  tmp = clip_b[start:end + 1]
  if start != 0:
      tmp = out[: start] + tmp
  if end < out.num_frames - 1:
      tmp = tmp + out[end + 1:]
  out = tmp
  \<close>
\<close>

definition replace_step :: "'a list \<Rightarrow> 'a list \<Rightarrow> frame_range \<Rightarrow> error + 'a list" where
  "replace_step clip_b out r =
     (case bounds r of (start, stop) \<Rightarrow>
        and_then (slice clip_b (Some start) (Some (stop + 1))) (\<lambda>tmp.
        and_then (if start \<noteq> 0
                  then and_then (slice out None (Some start)) (\<lambda>head. Inr (head @ tmp))
                  else Inr tmp) (\<lambda>tmp.
        if stop < num_frames out - 1
        then and_then (slice out (Some (stop + 1)) None) (\<lambda>tail. Inr (tmp @ tail))
        else Inr tmp)))"

text \<open>\<^verbatim>\<open>for r in ranges: ...\<close>, then \<^verbatim>\<open>return out\<close>.\<close>

fun replace_loop :: "'a list \<Rightarrow> 'a list \<Rightarrow> frame_range list \<Rightarrow> error + 'a list" where
  "replace_loop clip_b out [] = Inr out"
| "replace_loop clip_b out (r # ranges) =
     and_then (replace_step clip_b out r) (\<lambda>out. replace_loop clip_b out ranges)"

definition replace_ranges :: "'a list \<Rightarrow> 'a list \<Rightarrow> frame_range list \<Rightarrow> error + 'a list" where
  "replace_ranges clip_a clip_b ranges = replace_loop clip_b clip_a ranges"

subsection \<open>The splicing algorithm as the specification words it\<close>

text \<open>
  For each range \<open>(start, end)\<close>, in the order supplied and starting from \<open>base\<close>:
  extract \<open>replacement[start : end+1]\<close>; if \<open>start \<noteq> 0\<close>, prepend \<open>working[0 : start]\<close>;
  if \<open>end < len(working) - 1\<close>, append \<open>working[end+1:]\<close>; the result is the new working
  sequence. A single index \<open>r\<close> is the range \<open>(r, r)\<close>. The sub-ranges are read with the
  slices of the sequences, so that an error of a slice is the error of the fold.
\<close>

definition splice_step_spec :: "'a list \<Rightarrow> 'a list \<Rightarrow> int \<times> int \<Rightarrow> error + 'a list" where
  "splice_step_spec replacement working se =
     and_then (slice replacement (Some (fst se)) (Some (snd se + 1))) (\<lambda>extract.
     and_then (if fst se \<noteq> 0
               then and_then (slice working (Some 0) (Some (fst se)))
                      (\<lambda>prefix. Inr (prefix @ extract))
               else Inr extract) (\<lambda>joined.
     if snd se < int (length working) - 1
     then and_then (slice working (Some (snd se + 1)) None) (\<lambda>suffix. Inr (joined @ suffix))
     else Inr joined))"

definition splice_spec :: "'a list \<Rightarrow> 'a list \<Rightarrow> frame_range list \<Rightarrow> error + 'a list" where
  "splice_spec base replacement ranges =
     foldl (\<lambda>working se. and_then working (\<lambda>w. splice_step_spec replacement w se))
       (Inr base) (map bounds ranges)"

subsection \<open>Well-formed ranges\<close>

text \<open>
  A range is within a sequence of \<open>n\<close> elements when \<open>0 \<le> start \<le> end \<le> n - 1\<close>;
  it covers the indices from \<open>start\<close> to \<open>end\<close>, both included; two ranges overlap when
  they cover a common index.
\<close>

definition in_bounds :: "nat \<Rightarrow> frame_range \<Rightarrow> bool" where
  "in_bounds n r = (0 \<le> fst (bounds r) \<and> fst (bounds r) \<le> snd (bounds r)
                    \<and> snd (bounds r) \<le> int n - 1)"

definition covers :: "frame_range \<Rightarrow> nat \<Rightarrow> bool" where
  "covers r i = (fst (bounds r) \<le> int i \<and> int i \<le> snd (bounds r))"

definition overlap :: "frame_range \<Rightarrow> frame_range \<Rightarrow> bool" where
  "overlap r q = (fst (bounds r) \<le> snd (bounds q) \<and> fst (bounds q) \<le> snd (bounds r))"

fun non_overlapping :: "frame_range list \<Rightarrow> bool" where
  "non_overlapping [] = True"
| "non_overlapping (r # rs) = (list_all (\<lambda>q. \<not> overlap r q) rs \<and> non_overlapping rs)"

text \<open>
  A range selects no frame of clips of \<open>n\<close> frames when, read as slice bounds, \<open>end + 1\<close>
  is not beyond \<open>start\<close>, or when \<open>start\<close> lies \<open>n\<close> or more frames before the end.
\<close>

definition selects_no_frame :: "nat \<Rightarrow> frame_range \<Rightarrow> bool" where
  "selects_no_frame n r =
     (slice_bound (int n) (snd (bounds r) + 1) \<le> slice_bound (int n) (fst (bounds r))
      \<or> fst (bounds r) \<le> - int n)"

section \<open>limit_dark\<close>

text \<open>
  Python's truth value of \<^verbatim>\<open>threshold_range\<close>: \<^verbatim>\<open>None\<close> is false, and so is
  the number zero. The parameter is annotated \<^verbatim>\<open>Optional[int]\<close> and compared with
  the float average and the float threshold; nothing checks the annotation, so the value is
  a real number here, which covers the integers.
\<close>

definition truthy :: "real option \<Rightarrow> bool" where
  "truthy v = (case v of None \<Rightarrow> False | Some x \<Rightarrow> x \<noteq> 0)"

text \<open>
  The callback \<^verbatim>\<open>_diff(n, f, clip, filtered, threshold, threshold_range)\<close>; of the
  frame \<^verbatim>\<open>f\<close> it reads \<^verbatim>\<open>f.props.PlaneStatsAverage\<close> only, which is the argument
  \<open>average\<close> here. It returns one of the two clips.
  \<^verbatim>\<open>
  if threshold_range:
      return filtered if threshold_range <= f.props.PlaneStatsAverage <= threshold else clip
  else:
      return clip if f.props.PlaneStatsAverage > threshold else filtered
  \<close>
\<close>

definition diff :: "nat \<Rightarrow> real \<Rightarrow> 'c \<Rightarrow> 'c \<Rightarrow> real \<Rightarrow> real option \<Rightarrow> 'c" where
  "diff n average clip filtered threshold threshold_range =
     (if truthy threshold_range then
        (if the threshold_range \<le> average \<and> average \<le> threshold then filtered else clip)
      else
        (if average > threshold then clip else filtered))"

text \<open>
  The engine's \<^verbatim>\<open>FrameEval(clip, eval, prop_src)\<close> is a lazy clip as long as
  \<^verbatim>\<open>clip\<close>: when frame \<open>n\<close> is requested, \<open>eval\<close> is called with \<open>n\<close> and frame
  \<open>n\<close> of \<^verbatim>\<open>prop_src\<close>, and frame \<open>n\<close> of the clip it returns is emitted. The lazy
  clip is the function from the requested index to the emitted frame, \<open>None\<close> beyond the
  end of \<^verbatim>\<open>clip\<close>. A request for frame \<open>n\<close> of a clip that ends before \<open>n\<close> gets
  the last frame of that clip.
\<close>

definition get_frame :: "'a list \<Rightarrow> nat \<Rightarrow> 'a option" where
  "get_frame clip n =
     (if clip = [] then None else Some (clip ! min n (length clip - 1)))"

definition FrameEval :: "'a list \<Rightarrow> (nat \<Rightarrow> 'p \<Rightarrow> 'a list) \<Rightarrow> 'p list \<Rightarrow> nat \<Rightarrow> 'a option" where
  "FrameEval clip eval prop_src n =
     (if n < length clip \<and> n < length prop_src then get_frame (eval n (prop_src ! n)) n
      else None)"

text \<open>
  \<^verbatim>\<open>limit_dark(clip, filtered, threshold, threshold_range)\<close>. The statistics clip
  \<^verbatim>\<open>avg = core.std.PlaneStats(clip)\<close> is computed by the engine; it is the argument
  \<open>avg\<close>, the sequence of the \<^verbatim>\<open>PlaneStatsAverage\<close> of the frames of \<^verbatim>\<open>clip\<close>.
  \<^verbatim>\<open>
  if threshold_range and threshold_range > threshold:
      raise ValueError(...)
  avg = core.std.PlaneStats(clip)
  return core.std.FrameEval(clip, partial(_diff, clip=clip, filtered=filtered,
                            threshold=threshold, threshold_range=threshold_range), avg)
  \<close>
\<close>

definition limit_dark ::
  "real list \<Rightarrow> 'a list \<Rightarrow> 'a list \<Rightarrow> real \<Rightarrow> real option \<Rightarrow> error + (nat \<Rightarrow> 'a option)" where
  "limit_dark avg clip filtered threshold threshold_range =
     (if truthy threshold_range \<and> the threshold_range > threshold then Inl ValueError
      else Inr (FrameEval clip
                  (\<lambda>n f. diff n f clip filtered threshold threshold_range) avg))"

text \<open>
  Requesting frame \<open>n\<close> of what \<^verbatim>\<open>limit_dark\<close> returned: the error when the call
  raised, the emitted frame otherwise.
\<close>

fun request :: "error + (nat \<Rightarrow> 'a option) \<Rightarrow> nat \<Rightarrow> error + 'a option" where
  "request (Inl e) n = Inl e"
| "request (Inr out) n = Inr (out n)"

section \<open>frames_since_bookmark\<close>

text \<open>
  The callback \<^verbatim>\<open>_frames_since_bookmark(n, clip, bookmarks)\<close>, up to the value
  \<^verbatim>\<open>result\<close> that it hands to \<^verbatim>\<open>core.text.Text\<close>. The local \<^verbatim>\<open>result\<close>
  is unbound until the loop assigns it.
  \<^verbatim>\<open>
  for i, bookmark in enumerate(bookmarks):
      frames_since = n - bookmark
      if frames_since >= 0 and i + 1 >= len(bookmarks):
          result = frames_since
      elif frames_since >= 0 and n - bookmarks[i + 1] < 0:
          result = frames_since
          break
  return core.text.Text(clip, result)
  \<close>
  The loop runs over the pairs of \<^verbatim>\<open>enumerate(bookmarks)\<close> that are left; the read of
  \<^verbatim>\<open>bookmarks[i + 1]\<close> happens only where \<open>i + 1 < len(bookmarks)\<close>.
\<close>

fun since_loop :: "int \<Rightarrow> int list \<Rightarrow> (nat \<times> int) list \<Rightarrow> int option \<Rightarrow> int option" where
  "since_loop n bookmarks [] result = result"
| "since_loop n bookmarks ((i, bookmark) # rest) result =
     (let frames_since = n - bookmark in
      if frames_since \<ge> 0 \<and> i + 1 \<ge> length bookmarks then
        since_loop n bookmarks rest (Some frames_since)
      else if frames_since \<ge> 0 \<and> n - bookmarks ! (i + 1) < 0 then
        Some frames_since
      else since_loop n bookmarks rest result)"

definition frames_since_bookmark :: "int \<Rightarrow> int list \<Rightarrow> error + int" where
  "frames_since_bookmark n bookmarks =
     (case since_loop n bookmarks (enumerate 0 bookmarks) None of
        None \<Rightarrow> Inl UnboundLocalError
      | Some result \<Rightarrow> Inr result)"

section \<open>replace_ranges is the sequential fold\<close>

lemma slice_from_zero: "slice xs (Some 0) hi = slice xs None hi"
  by (simp add: slice_def slice_bound_def num_frames_def Let_def)

lemma replace_step_splice_step_spec:
  "replace_step clip_b out r = splice_step_spec clip_b out (bounds r)"
  by (cases "bounds r")
     (simp add: replace_step_def splice_step_spec_def slice_from_zero num_frames_def
        cong: if_cong)

text \<open>Once a step has raised, the fold stays at its error.\<close>

lemma foldl_failed:
  "foldl (\<lambda>working se. and_then working (f se)) (Inl e) ses = Inl e"
  by (induction ses) simp_all

lemma replace_loop_foldl:
  "replace_loop clip_b out ranges =
     foldl (\<lambda>working se. and_then working (\<lambda>w. splice_step_spec clip_b w se))
       (Inr out) (map bounds ranges)"
proof (induction ranges arbitrary: out)
  case Nil
  then show ?case by simp
next
  case (Cons r ranges)
  show ?case
  proof (cases "splice_step_spec clip_b out (bounds r)")
    case (Inl e)
    then show ?thesis
      using foldl_failed[of "\<lambda>se w. splice_step_spec clip_b w se" e "map bounds ranges"]
      by (simp add: replace_step_splice_step_spec)
  next
    case (Inr out')
    then show ?thesis
      by (simp add: replace_step_splice_step_spec Cons.IH)
  qed
qed

text \<open>
  C1. \<^verbatim>\<open>replace_ranges\<close> is the documented sequential fold: starting from the base clip
  and taking the ranges in the order supplied, each range \<open>(start, end)\<close> turns the working
  sequence into \<open>replacement[start:end+1]\<close>, with the prefix \<open>[0:start]\<close> of the working
  sequence before it when \<open>start \<noteq> 0\<close> and the suffix \<open>[end+1:]\<close> of the working sequence
  after it when \<open>end < len(working) - 1\<close>. For the base \<open>[0..9]\<close>, the replacement
  \<open>[100..109]\<close> and the ranges \<open>[(0,5),(3,8)]\<close> the result is
  \<open>[100,101,102,103,104,105,106,107,108,9]\<close>.
\<close>

theorem replace_ranges_sequential_fold:
  "replace_ranges base replacement ranges = splice_spec base replacement ranges
   \<and> replace_ranges [0, 1, 2, 3, 4, 5, 6, 7, 8, 9 :: int]
        [100, 101, 102, 103, 104, 105, 106, 107, 108, 109] [Span 0 5, Span 3 8]
      = Inr [100, 101, 102, 103, 104, 105, 106, 107, 108, 9]"
proof
  show "replace_ranges base replacement ranges = splice_spec base replacement ranges"
    by (simp add: replace_ranges_def splice_spec_def replace_loop_foldl)
next
  show "replace_ranges [0, 1, 2, 3, 4, 5, 6, 7, 8, 9 :: int]
        [100, 101, 102, 103, 104, 105, 106, 107, 108, 109] [Span 0 5, Span 3 8]
      = Inr [100, 101, 102, 103, 104, 105, 106, 107, 108, 9]"
    by (simp add: replace_ranges_def replace_step_def slice_def slice_bound_def num_frames_def)
qed

section \<open>One pass of the loop\<close>

text \<open>Slice bounds lie within the clip; the three shapes of slice that the loop takes.\<close>

lemma slice_bound_range:
  assumes "0 \<le> n"
  shows "0 \<le> slice_bound n i" "slice_bound n i \<le> n"
  using assms by (simp_all add: slice_bound_def)

lemma slice_some_some:
  "slice xs (Some s) (Some e) =
     (if slice_bound (int (length xs)) e \<le> slice_bound (int (length xs)) s then Inl VapourSynthError
      else Inr (take (nat (slice_bound (int (length xs)) e - slice_bound (int (length xs)) s))
                  (drop (nat (slice_bound (int (length xs)) s)) xs)))"
  by (simp add: slice_def num_frames_def Let_def)

lemma slice_none_some:
  "slice xs None (Some s) =
     (if slice_bound (int (length xs)) s \<le> 0 then Inl VapourSynthError
      else Inr (take (nat (slice_bound (int (length xs)) s)) xs))"
  by (simp add: slice_def num_frames_def Let_def)

lemma slice_some_none:
  "slice xs (Some s) None =
     (if int (length xs) \<le> slice_bound (int (length xs)) s then Inl VapourSynthError
      else Inr (drop (nat (slice_bound (int (length xs)) s)) xs))"
  by (simp add: slice_def num_frames_def Let_def)

text \<open>
  One pass on clips of equal length either raises, when the range selects no frame, or
  returns the frames of the working clip before the first bound, the frames of the
  replacement between the bounds and the frames of the working clip from the second bound
  on. The guards \<^verbatim>\<open>start != 0\<close> and \<^verbatim>\<open>end < out.num_frames - 1\<close> of the
  source leave out exactly the slices that would hold no frame there.
\<close>

lemma replace_step_cases:
  assumes len: "length out = length clip_b"
  shows "replace_step clip_b out r =
           (if selects_no_frame (length clip_b) r then Inl VapourSynthError
            else Inr (take (nat (slice_bound (int (length clip_b)) (fst (bounds r)))) out
                 @ take (nat (slice_bound (int (length clip_b)) (snd (bounds r) + 1)
                              - slice_bound (int (length clip_b)) (fst (bounds r))))
                     (drop (nat (slice_bound (int (length clip_b)) (fst (bounds r)))) clip_b)
                 @ drop (nat (slice_bound (int (length clip_b)) (snd (bounds r) + 1))) out))"
proof -
  obtain s e where se: "bounds r = (s, e)" by (cases "bounds r")
  define n where "n = int (length clip_b)"
  define F where "F = slice_bound n s"
  define T where "T = slice_bound n (e + 1)"
  define mid where "mid = take (nat (T - F)) (drop (nat F) clip_b)"
  have n0: "0 \<le> n"
    by (simp add: n_def)
  have FT: "0 \<le> F" "F \<le> n" "0 \<le> T" "T \<le> n"
    using slice_bound_range[OF n0] by (simp_all add: F_def T_def)
  have m: "slice clip_b (Some s) (Some (e + 1)) = (if T \<le> F then Inl VapourSynthError else Inr mid)"
    by (simp add: slice_some_some mid_def F_def T_def n_def)
  have h: "slice out None (Some s) = (if F \<le> 0 then Inl VapourSynthError else Inr (take (nat F) out))"
    by (simp add: slice_none_some len F_def n_def)
  have t: "slice out (Some (e + 1)) None = (if n \<le> T then Inl VapourSynthError else Inr (drop (nat T) out))"
    by (simp add: slice_some_none len T_def n_def)
  have sel: "selects_no_frame (length clip_b) r = (T \<le> F \<or> s \<le> - n)"
    by (simp add: selects_no_frame_def se F_def T_def n_def)
  have step: "replace_step clip_b out r =
      and_then (if T \<le> F then Inl VapourSynthError else Inr mid) (\<lambda>tmp.
        and_then (if s \<noteq> 0
                  then and_then (if F \<le> 0 then Inl VapourSynthError else Inr (take (nat F) out))
                         (\<lambda>head. Inr (head @ tmp))
                  else Inr tmp) (\<lambda>tmp.
        if e < n - 1
        then and_then (if n \<le> T then Inl VapourSynthError else Inr (drop (nat T) out))
               (\<lambda>tail. Inr (tmp @ tail))
        else Inr tmp))"
    by (simp add: replace_step_def se m h t num_frames_def len n_def)
  show ?thesis
  proof (cases "T \<le> F")
    case True
    then show ?thesis
      by (simp add: step sel)
  next
    case False
    then have npos: "0 < n"
      using FT by simp
    show ?thesis
    proof (cases "s \<le> - n")
      case True
      then have "s \<noteq> 0" "F \<le> 0"
        using npos by (simp_all add: F_def slice_bound_def)
      then show ?thesis
        using False True by (simp add: step sel)
    next
      case nothead: False
      have F0: "s \<noteq> 0 \<Longrightarrow> \<not> F \<le> 0"
        using nothead npos by (auto simp add: F_def slice_bound_def)
      have Fz: "s = 0 \<Longrightarrow> F = 0"
        using npos by (simp add: F_def slice_bound_def)
      have Tn: "e < n - 1 \<Longrightarrow> \<not> n \<le> T"
        using npos by (auto simp add: T_def slice_bound_def)
      have Te: "\<not> e < n - 1 \<Longrightarrow> drop (nat T) out = []"
        using npos len by (auto simp add: T_def slice_bound_def n_def)
      have "replace_step clip_b out r = Inr (take (nat F) out @ mid @ drop (nat T) out)"
        using False F0 Fz Tn Te by (simp add: step)
      then show ?thesis
        using False nothead by (simp add: sel se mid_def F_def T_def n_def)
    qed
  qed
qed

lemma replace_step_length:
  assumes "length out = length clip_b" "replace_step clip_b out r = Inr out'"
  shows "length out' = length out"
proof -
  define n where "n = int (length clip_b)"
  define F where "F = slice_bound n (fst (bounds r))"
  define T where "T = slice_bound n (snd (bounds r) + 1)"
  have "0 \<le> n"
    by (simp add: n_def)
  then have FT: "0 \<le> F" "T \<le> n"
    by (simp_all add: F_def T_def slice_bound_range)
  have ok: "\<not> selects_no_frame (length clip_b) r"
    using assms by (auto simp add: replace_step_cases)
  then have "F < T"
    by (simp add: selects_no_frame_def F_def T_def n_def)
  moreover have "out' = take (nat F) out @ take (nat (T - F)) (drop (nat F) clip_b) @ drop (nat T) out"
    using assms ok by (simp add: replace_step_cases F_def T_def n_def)
  ultimately show ?thesis
    using FT assms(1) by (auto simp add: n_def min_def)
qed

lemma selects_no_frame_nonneg:
  assumes "0 \<le> fst (bounds r)" "0 \<le> snd (bounds r)"
  shows "selects_no_frame n r = (fst (bounds r) > int n - 1 \<or> fst (bounds r) > snd (bounds r))"
  using assms by (auto simp add: selects_no_frame_def slice_bound_def)

section \<open>Ranges within the bounds\<close>

lemma in_bounds_selects: "in_bounds n r \<Longrightarrow> \<not> selects_no_frame n r"
  by (auto simp add: in_bounds_def selects_no_frame_def slice_bound_def)

lemma replace_step_in_bounds:
  assumes len: "length out = length clip_b" and ib: "in_bounds (length clip_b) r"
  shows "replace_step clip_b out r =
           Inr (take (nat (fst (bounds r))) out
           @ take (nat (snd (bounds r) + 1 - fst (bounds r))) (drop (nat (fst (bounds r))) clip_b)
           @ drop (nat (snd (bounds r) + 1)) out)"
proof -
  have b: "0 \<le> fst (bounds r)" "fst (bounds r) \<le> snd (bounds r)"
          "snd (bounds r) \<le> int (length clip_b) - 1"
    using ib by (simp_all add: in_bounds_def)
  have F: "slice_bound (int (length clip_b)) (fst (bounds r)) = fst (bounds r)"
    using b by (simp add: slice_bound_def)
  have T: "slice_bound (int (length clip_b)) (snd (bounds r) + 1) = snd (bounds r) + 1"
    using b by (simp add: slice_bound_def)
  show ?thesis
    using in_bounds_selects[OF ib] by (simp add: replace_step_cases[OF len] F T)
qed

lemma replace_step_nth:
  assumes "length out = length clip_b" "in_bounds (length clip_b) r" "i < length out"
    and "replace_step clip_b out r = Inr out'"
  shows "out' ! i = (if covers r i then clip_b ! i else out ! i)"
proof -
  have b: "0 \<le> fst (bounds r)" "fst (bounds r) \<le> snd (bounds r)"
          "snd (bounds r) \<le> int (length clip_b) - 1"
    using assms(2) by (simp_all add: in_bounds_def)
  have sum: "nat (fst (bounds r)) + nat (snd (bounds r) + 1 - fst (bounds r))
               = nat (snd (bounds r) + 1)"
    using b by simp
  have "out' = take (nat (fst (bounds r))) out
           @ take (nat (snd (bounds r) + 1 - fst (bounds r))) (drop (nat (fst (bounds r))) clip_b)
           @ drop (nat (snd (bounds r) + 1)) out"
    using assms(4) by (simp add: replace_step_in_bounds[OF assms(1,2)])
  then show ?thesis
    using assms(1,3) b by (auto simp add: covers_def nth_append sum min_def)
qed

text \<open>
  With ranges within the bounds the loop returns, keeps the length, and takes exactly the
  covered indices from the replacement.
\<close>

lemma replace_loop_in_bounds:
  assumes "length out = length clip_b" "list_all (in_bounds (length clip_b)) ranges"
  shows "\<exists>out'. replace_loop clip_b out ranges = Inr out' \<and> length out' = length out
           \<and> (\<forall>i<length out. out' ! i
                 = (if list_ex (\<lambda>r. covers r i) ranges then clip_b ! i else out ! i))"
  using assms
proof (induction ranges arbitrary: out)
  case Nil
  then show ?case by simp
next
  case (Cons r ranges)
  have ib: "in_bounds (length clip_b) r" and rest: "list_all (in_bounds (length clip_b)) ranges"
    using Cons.prems(2) by simp_all
  obtain mid where mid: "replace_step clip_b out r = Inr mid"
    using replace_step_in_bounds[OF Cons.prems(1) ib] by blast
  have lmid: "length mid = length out"
    using Cons.prems(1) mid by (rule replace_step_length)
  have nmid: "mid ! i = (if covers r i then clip_b ! i else out ! i)" if "i < length out" for i
    using Cons.prems(1) ib that mid by (rule replace_step_nth)
  obtain out' where out': "replace_loop clip_b mid ranges = Inr out'" "length out' = length mid"
      "\<forall>i<length mid. out' ! i
          = (if list_ex (\<lambda>r. covers r i) ranges then clip_b ! i else mid ! i)"
    using Cons.IH[of mid] lmid Cons.prems(1) rest by auto
  show ?case
    using out' lmid nmid by (auto simp add: mid)
qed

section \<open>When the loop raises\<close>

lemma replace_loop_raises:
  assumes "length out = length clip_b"
  shows "replace_loop clip_b out ranges =
           (if list_ex (selects_no_frame (length clip_b)) ranges then Inl VapourSynthError
            else replace_loop clip_b out ranges)
         \<and> (\<not> list_ex (selects_no_frame (length clip_b)) ranges \<longrightarrow>
              (\<exists>out'. replace_loop clip_b out ranges = Inr out' \<and> length out' = length out))"
  using assms
proof (induction ranges arbitrary: out)
  case Nil
  then show ?case by simp
next
  case (Cons r ranges)
  show ?case
  proof (cases "selects_no_frame (length clip_b) r")
    case True
    then show ?thesis
      by (simp add: replace_step_cases[OF Cons.prems])
  next
    case False
    then obtain mid where mid: "replace_step clip_b out r = Inr mid"
      by (simp add: replace_step_cases[OF Cons.prems])
    have lmid: "length mid = length out"
      using Cons.prems mid by (rule replace_step_length)
    then have "length mid = length clip_b"
      using Cons.prems by simp
    from Cons.IH[OF this] show ?thesis
      using False lmid by (auto simp add: mid)
  qed
qed

section \<open>Order, length and errors of replace_ranges\<close>

text \<open>
  C2. For base and replacement sequences of equal length and two range lists that are
  permutations of each other, within the bounds of the base and pairwise non-overlapping,
  \<^verbatim>\<open>replace_ranges\<close> returns the same sequence for both orders.
\<close>

theorem replace_ranges_order_independent:
  assumes "length base = length replacement"
    and "mset ranges1 = mset ranges2"
    and "list_all (in_bounds (length base)) ranges1"
    and "non_overlapping ranges1"
  shows "replace_ranges base replacement ranges1 = replace_ranges base replacement ranges2
         \<and> (\<exists>out. replace_ranges base replacement ranges1 = Inr out)"
proof -
  have sets: "set ranges1 = set ranges2"
    using assms(2) by (rule mset_eq_setD)
  have ib1: "list_all (in_bounds (length replacement)) ranges1"
    using assms(1,3) by simp
  then have ib2: "list_all (in_bounds (length replacement)) ranges2"
    using sets by (simp add: list_all_iff)
  obtain out1 where o1: "replace_loop replacement base ranges1 = Inr out1"
      "length out1 = length base"
      "\<forall>i<length base. out1 ! i
          = (if list_ex (\<lambda>r. covers r i) ranges1 then replacement ! i else base ! i)"
    using replace_loop_in_bounds[OF assms(1) ib1] by blast
  obtain out2 where o2: "replace_loop replacement base ranges2 = Inr out2"
      "length out2 = length base"
      "\<forall>i<length base. out2 ! i
          = (if list_ex (\<lambda>r. covers r i) ranges2 then replacement ! i else base ! i)"
    using replace_loop_in_bounds[OF assms(1) ib2] by blast
  have "out1 = out2"
  proof (rule nth_equalityI)
    show "length out1 = length out2"
      by (simp add: o1(2) o2(2))
    fix i
    assume "i < length out1"
    then have "i < length base"
      by (simp add: o1(2))
    then show "out1 ! i = out2 ! i"
      using o1(3) o2(3) sets by (simp add: list_ex_iff)
  qed
  then show ?thesis
    by (simp add: replace_ranges_def o1(1) o2(1))
qed

theorem replace_ranges_order_independent_witness:
  "length [0, 1, 2, 3, 4 :: int] = length [10, 11, 12, 13, 14 :: int]
   \<and> mset [Span 0 1, Frame 3] = mset [Frame 3, Span 0 1]
   \<and> list_all (in_bounds (length [0, 1, 2, 3, 4 :: int])) [Span 0 1, Frame 3]
   \<and> non_overlapping [Span 0 1, Frame 3]
   \<and> replace_ranges [0, 1, 2, 3, 4 :: int] [10, 11, 12, 13, 14] [Span 0 1, Frame 3]
       = replace_ranges [0, 1, 2, 3, 4] [10, 11, 12, 13, 14] [Frame 3, Span 0 1]"
proof -
  have h1: "length [0, 1, 2, 3, 4 :: int] = length [10, 11, 12, 13, 14 :: int]"
    by simp
  have h2: "mset [Span 0 1, Frame 3] = mset [Frame 3, Span 0 1]"
    by simp
  have h3: "list_all (in_bounds (length [0, 1, 2, 3, 4 :: int])) [Span 0 1, Frame 3]"
    by (simp add: in_bounds_def)
  have h4: "non_overlapping [Span 0 1, Frame 3]"
    by (simp add: overlap_def)
  have "replace_ranges [0, 1, 2, 3, 4 :: int] [10, 11, 12, 13, 14] [Span 0 1, Frame 3]
       = replace_ranges [0, 1, 2, 3, 4] [10, 11, 12, 13, 14] [Frame 3, Span 0 1]"
    using replace_ranges_order_independent[OF h1 h2 h3 h4] by (rule conjunct1)
  then show ?thesis
    using h1 h2 h3 h4 by blast
qed

text \<open>
  C3. For base and replacement sequences of equal length and ranges that all satisfy
  \<open>0 \<le> start \<le> end \<le> len(base) - 1\<close>, \<^verbatim>\<open>replace_ranges\<close> returns a sequence as
  long as the base sequence.
\<close>

theorem replace_ranges_length:
  assumes "length base = length replacement"
    and "list_all (in_bounds (length base)) ranges"
  shows "\<exists>out. replace_ranges base replacement ranges = Inr out \<and> length out = length base"
proof -
  have "list_all (in_bounds (length replacement)) ranges"
    using assms by simp
  from replace_loop_in_bounds[OF assms(1) this] show ?thesis
    by (auto simp add: replace_ranges_def)
qed

theorem replace_ranges_length_witness:
  "length [0, 1, 2, 3, 4 :: int] = length [10, 11, 12, 13, 14 :: int]
   \<and> list_all (in_bounds (length [0, 1, 2, 3, 4 :: int])) [Span 1 3, Frame 0, Span 2 4]
   \<and> (\<exists>out. replace_ranges [0, 1, 2, 3, 4 :: int] [10, 11, 12, 13, 14]
               [Span 1 3, Frame 0, Span 2 4] = Inr out
             \<and> length out = length [0, 1, 2, 3, 4 :: int])"
proof -
  have h1: "length [0, 1, 2, 3, 4 :: int] = length [10, 11, 12, 13, 14 :: int]"
    by simp
  have h2: "list_all (in_bounds (length [0, 1, 2, 3, 4 :: int])) [Span 1 3, Frame 0, Span 2 4]"
    by (simp add: in_bounds_def)
  have "\<exists>out. replace_ranges [0, 1, 2, 3, 4 :: int] [10, 11, 12, 13, 14]
               [Span 1 3, Frame 0, Span 2 4] = Inr out \<and> length out = length [0, 1, 2, 3, 4 :: int]"
    using h1 h2 by (rule replace_ranges_length)
  then show ?thesis
    using h1 h2 by blast
qed

text \<open>
  C4 reads: \<^verbatim>\<open>replace_ranges\<close> fails with an index error whenever a range has its start
  or end outside \<open>[0, len(base) - 1]\<close>, or \<open>start > end\<close>. The source checks no range:
  an error can only come from a slice, and the slice \<^verbatim>\<open>clip_b[start:end + 1]\<close>
  clamps an end beyond the clip. The range \<open>(1, 5)\<close> on sequences of three elements ends
  outside the bounds, and the call returns.
\<close>

theorem replace_ranges_out_of_bounds_counterexample:
  "\<not> in_bounds (length [0, 1, 2 :: int]) (Span 1 5)
   \<and> replace_ranges [0, 1, 2 :: int] [10, 11, 12] [Span 1 5] = Inr [0, 11, 12]"
  by (simp add: in_bounds_def replace_ranges_def replace_step_def slice_def slice_bound_def
      num_frames_def)

text \<open>
  C4, amended. For base and replacement sequences of equal length,
  \<^verbatim>\<open>replace_ranges\<close> fails exactly when one of the ranges selects no frame, with the
  engine's \<^verbatim>\<open>vapoursynth.Error\<close> (not an index error of Python), and returns a
  sequence as long as the base otherwise. The error is raised at the point the offending
  range is processed: the ranges before the first such range are applied, and the pass on
  that range raises. For a range whose start and end are not negative, selecting no frame
  is \<open>start > len(base) - 1\<close> or \<open>start > end\<close>; an end beyond \<open>len(base) - 1\<close> alone is
  no error, the range is clamped to the end of the sequence.
\<close>

theorem replace_ranges_raises:
  assumes "length base = length replacement"
  shows "(replace_ranges base replacement ranges = Inl VapourSynthError)
           = list_ex (selects_no_frame (length base)) ranges
         \<and> (\<not> list_ex (selects_no_frame (length base)) ranges \<longrightarrow>
              (\<exists>out. replace_ranges base replacement ranges = Inr out
                      \<and> length out = length base))
         \<and> (\<not> list_ex (selects_no_frame (length base)) before
              \<and> selects_no_frame (length base) r \<longrightarrow>
              (\<exists>out. replace_ranges base replacement before = Inr out
                      \<and> replace_step replacement out r = Inl VapourSynthError)
              \<and> replace_ranges base replacement (before @ r # after) = Inl VapourSynthError)
         \<and> (0 \<le> fst (bounds q) \<and> 0 \<le> snd (bounds q) \<longrightarrow>
              selects_no_frame (length base) q
                = (fst (bounds q) > int (length base) - 1 \<or> fst (bounds q) > snd (bounds q)))"
proof -
  note loop = replace_loop_raises[OF assms, unfolded assms[symmetric]]
  have a: "(replace_ranges base replacement ranges = Inl VapourSynthError)
             = list_ex (selects_no_frame (length base)) ranges"
    using loop[of ranges] by (auto simp add: replace_ranges_def)
  have b: "\<not> list_ex (selects_no_frame (length base)) rs \<Longrightarrow>
             \<exists>out. replace_ranges base replacement rs = Inr out \<and> length out = length base" for rs
    using loop[of rs] by (simp add: replace_ranges_def)
  have c: "(\<exists>out. replace_ranges base replacement before = Inr out
                      \<and> replace_step replacement out r = Inl VapourSynthError)
           \<and> replace_ranges base replacement (before @ r # after) = Inl VapourSynthError"
    if ok: "\<not> list_ex (selects_no_frame (length base)) before"
      and bad: "selects_no_frame (length base) r"
  proof -
    obtain out where out: "replace_ranges base replacement before = Inr out"
        "length out = length base"
      using b[OF ok] by blast
    have "replace_step replacement out r = Inl VapourSynthError"
      using out(2) assms bad by (simp add: replace_step_cases)
    moreover have "list_ex (selects_no_frame (length base)) (before @ r # after)"
      using bad by simp
    then have "replace_loop replacement base (before @ r # after) = Inl VapourSynthError"
      using loop[of "before @ r # after"] by metis
    ultimately show ?thesis
      using out(1) by (simp add: replace_ranges_def)
  qed
  show ?thesis
    using a b[of ranges] c by (simp add: selects_no_frame_nonneg)
qed

theorem replace_ranges_raises_witness:
  "length [0, 1, 2 :: int] = length [10, 11, 12 :: int]
   \<and> replace_ranges [0, 1, 2 :: int] [10, 11, 12] [Span 1 5, Span 5 7] = Inl VapourSynthError
   \<and> replace_ranges [0, 1, 2 :: int] [10, 11, 12] [Span 5 7] = Inl VapourSynthError
   \<and> replace_ranges [0, 1, 2 :: int] [10, 11, 12] [Frame 3] = Inl VapourSynthError
   \<and> replace_ranges [0, 1, 2 :: int] [10, 11, 12] [Span 2 1] = Inl VapourSynthError
   \<and> (\<exists>out. replace_ranges [0, 1, 2 :: int] [10, 11, 12] [Span 1 5] = Inr out
             \<and> length out = length [0, 1, 2 :: int])"
proof -
  have h: "length [0, 1, 2 :: int] = length [10, 11, 12 :: int]"
    by simp
  note th = replace_ranges_raises[OF h]
  have 1: "replace_ranges [0, 1, 2 :: int] [10, 11, 12] [Span 1 5, Span 5 7] = Inl VapourSynthError"
    using th[of "[Span 1 5, Span 5 7]"] by (simp add: selects_no_frame_def slice_bound_def)
  have 5: "replace_ranges [0, 1, 2 :: int] [10, 11, 12] [Span 5 7] = Inl VapourSynthError"
    using th[of "[Span 5 7]"] by (simp add: selects_no_frame_def slice_bound_def)
  have 2: "replace_ranges [0, 1, 2 :: int] [10, 11, 12] [Frame 3] = Inl VapourSynthError"
    using th[of "[Frame 3]"] by (simp add: selects_no_frame_def slice_bound_def)
  have 3: "replace_ranges [0, 1, 2 :: int] [10, 11, 12] [Span 2 1] = Inl VapourSynthError"
    using th[of "[Span 2 1]"] by (simp add: selects_no_frame_def slice_bound_def)
  have 4: "\<exists>out. replace_ranges [0, 1, 2 :: int] [10, 11, 12] [Span 1 5] = Inr out
             \<and> length out = length [0, 1, 2 :: int]"
    using th[of "[Span 1 5]"] by (simp add: selects_no_frame_def slice_bound_def)
  show ?thesis
    using h 1 2 3 4 5 by blast
qed

section \<open>limit_dark: the frame emitted at an index\<close>

text \<open>
  Requesting frame \<open>n\<close> of the result of \<^verbatim>\<open>limit_dark\<close>: the \<^verbatim>\<open>ValueError\<close> of
  the call, or frame \<open>n\<close> of the clip that \<^verbatim>\<open>_diff\<close> picks from the average of
  frame \<open>n\<close>.
\<close>

lemma get_frame_in_range: "n < length clip \<Longrightarrow> get_frame clip n = Some (clip ! n)"
  by (auto simp add: get_frame_def min_def)

lemma request_limit_dark:
  "request (limit_dark avg clip filtered threshold threshold_range) n =
     (if truthy threshold_range \<and> the threshold_range > threshold then Inl ValueError
      else Inr (if n < length clip \<and> n < length avg
                then get_frame (diff n (avg ! n) clip filtered threshold threshold_range) n
                else None))"
  by (simp add: limit_dark_def FrameEval_def)

text \<open>
  C5 reads: with \<^verbatim>\<open>threshold_range\<close> absent, the filtered (secondary) element is
  emitted at \<open>n\<close> if \<open>metrics[n] > threshold\<close>, the primary one otherwise. The source
  returns \<^verbatim>\<open>clip if f.props.PlaneStatsAverage > threshold else filtered\<close>: it is the
  primary element that is emitted above the threshold, as for the average \<open>0.9\<close> and the
  threshold \<open>0.25\<close>.
\<close>

theorem limit_dark_inverted_polarity_counterexample:
  "(0.9::real) > 0.25
   \<and> request (limit_dark [0.9] [''primary''] [''secondary''] 0.25 None) 0 = Inr (Some ''primary'')"
  by (simp add: limit_dark_def FrameEval_def diff_def truthy_def get_frame_def)

text \<open>
  C5, amended. For every index \<open>n\<close>, when \<^verbatim>\<open>threshold_range\<close> is absent,
  \<^verbatim>\<open>limit_dark\<close> emits the primary element at \<open>n\<close> if \<open>metrics[n] > threshold\<close>,
  and the filtered (secondary) element otherwise.
\<close>

theorem limit_dark_single_threshold:
  assumes "n < length clip" "length avg = length clip" "length filtered = length clip"
  shows "request (limit_dark avg clip filtered threshold None) n
           = Inr (Some (if avg ! n > threshold then clip ! n else filtered ! n))"
  using assms by (simp add: request_limit_dark diff_def truthy_def get_frame_in_range)

theorem limit_dark_single_threshold_witness:
  "request (limit_dark [0.1, 0.9] [''p0'', ''p1''] [''s0'', ''s1''] 0.25 None) 1 = Inr (Some ''p1'')"
  using limit_dark_single_threshold[of 1 "[''p0'', ''p1'']" "[0.1, 0.9]" "[''s0'', ''s1'']" "0.25"]
  by simp

text \<open>
  C6. With \<^verbatim>\<open>threshold_range\<close> absent, the metrics \<open>[0.1, 0.5, 0.9]\<close> and the
  threshold \<open>0.25\<close>, \<^verbatim>\<open>limit_dark\<close> emits secondary, primary, primary; at every
  index \<open>n\<close>, \<open>metrics[n] \<le> threshold\<close> selects the filtered (secondary) element and
  \<open>metrics[n] > threshold\<close> the primary one.
\<close>

theorem limit_dark_emit_order:
  assumes "n < length clip" "length avg = length clip" "length filtered = length clip"
  shows "map (request (limit_dark [0.1, 0.5, 0.9] [p0, p1, p2] [s0, s1, s2] 0.25 None)) [0, 1, 2]
           = [Inr (Some s0), Inr (Some p1), Inr (Some p2)]
         \<and> (avg ! n \<le> threshold \<longrightarrow>
              request (limit_dark avg clip filtered threshold None) n = Inr (Some (filtered ! n)))
         \<and> (avg ! n > threshold \<longrightarrow>
              request (limit_dark avg clip filtered threshold None) n = Inr (Some (clip ! n)))"
  using assms by (simp add: request_limit_dark diff_def truthy_def get_frame_in_range)

theorem limit_dark_emit_order_witness:
  "map (request (limit_dark [0.1, 0.5, 0.9] [''p0'', ''p1'', ''p2''] [''s0'', ''s1'', ''s2'']
          0.25 None)) [0, 1, 2]
     = [Inr (Some ''s0''), Inr (Some ''p1''), Inr (Some ''p2'')]
   \<and> [0.1, 0.5, 0.9 :: real] ! 0 \<le> 0.25
   \<and> request (limit_dark [0.1, 0.5, 0.9] [''p0'', ''p1'', ''p2''] [''s0'', ''s1'', ''s2'']
         0.25 None) 0 = Inr (Some ''s0'')"
proof -
  have h1: "0 < length [''p0'', ''p1'', ''p2'']"
    by simp
  have h2: "length [0.1, 0.5, 0.9 :: real] = length [''p0'', ''p1'', ''p2'']"
    by simp
  have h3: "length [''s0'', ''s1'', ''s2''] = length [''p0'', ''p1'', ''p2'']"
    by simp
  note inst = limit_dark_emit_order[OF h1 h2 h3, where threshold = "0.25"
      and ?p0.0 = "''p0''" and ?p1.0 = "''p1''" and ?p2.0 = "''p2''"
      and ?s0.0 = "''s0''" and ?s1.0 = "''s1''" and ?s2.0 = "''s2''"]
  have le: "[0.1, 0.5, 0.9 :: real] ! 0 \<le> 0.25"
    by simp
  have "request (limit_dark [0.1, 0.5, 0.9] [''p0'', ''p1'', ''p2''] [''s0'', ''s1'', ''s2'']
         0.25 None) 0 = Inr (Some ([''s0'', ''s1'', ''s2''] ! 0))"
    using inst le by blast
  then show ?thesis
    using inst le by simp
qed

text \<open>
  C7 reads: when \<^verbatim>\<open>threshold_range\<close> is present, the filtered element is emitted at
  \<open>n\<close> if and only if \<open>threshold_range \<le> metrics[n] \<le> threshold\<close>. The source tests
  \<^verbatim>\<open>if threshold_range:\<close>, which is false for the number zero too: with
  \<^verbatim>\<open>threshold_range = 0\<close> the single-threshold rule decides, and the average
  \<open>-0.1\<close>, which is outside \<open>[0, 0.25]\<close>, selects the filtered element.
\<close>

theorem limit_dark_zero_range_counterexample:
  "\<not> (0 \<le> (- 0.1 :: real) \<and> (- 0.1 :: real) \<le> 0.25)
   \<and> request (limit_dark [- 0.1] [''primary''] [''secondary''] 0.25 (Some 0)) 0
       = Inr (Some ''secondary'')"
  by (simp add: limit_dark_def FrameEval_def diff_def truthy_def get_frame_def)

text \<open>
  C7, amended. For every index \<open>n\<close>, when \<^verbatim>\<open>threshold_range\<close> is present, is not
  zero and is at most \<^verbatim>\<open>threshold\<close> (so that the call does not raise),
  \<^verbatim>\<open>limit_dark\<close> emits the filtered (secondary) element at \<open>n\<close> if and only if
  \<open>threshold_range \<le> metrics[n] \<le> threshold\<close>, and the primary element otherwise.
\<close>

theorem limit_dark_band:
  assumes "threshold_range \<noteq> 0" "threshold_range \<le> threshold"
    and "n < length clip" "length avg = length clip" "length filtered = length clip"
  shows "request (limit_dark avg clip filtered threshold (Some threshold_range)) n
           = Inr (Some (if threshold_range \<le> avg ! n \<and> avg ! n \<le> threshold
                        then filtered ! n else clip ! n))"
  using assms by (simp add: request_limit_dark diff_def truthy_def get_frame_in_range)

theorem limit_dark_band_witness:
  "map (request (limit_dark [0.1, 0.3, 0.9] [''p0'', ''p1'', ''p2''] [''s0'', ''s1'', ''s2'']
          0.5 (Some 0.2))) [0, 1, 2]
     = [Inr (Some ''p0''), Inr (Some ''s1''), Inr (Some ''p2'')]"
  using limit_dark_band[of "0.2" "0.5" 0 "[''p0'', ''p1'', ''p2'']" "[0.1, 0.3, 0.9]"
      "[''s0'', ''s1'', ''s2'']"]
    limit_dark_band[of "0.2" "0.5" 1 "[''p0'', ''p1'', ''p2'']" "[0.1, 0.3, 0.9]"
      "[''s0'', ''s1'', ''s2'']"]
    limit_dark_band[of "0.2" "0.5" 2 "[''p0'', ''p1'', ''p2'']" "[0.1, 0.3, 0.9]"
      "[''s0'', ''s1'', ''s2'']"]
  by simp

text \<open>
  C8 reads: \<^verbatim>\<open>limit_dark\<close> raises \<^verbatim>\<open>ValueError\<close> if and only if
  \<^verbatim>\<open>threshold_range\<close> is present and greater than \<^verbatim>\<open>threshold\<close>. The check is
  \<^verbatim>\<open>if threshold_range and threshold_range > threshold\<close>: with
  \<^verbatim>\<open>threshold_range = 0\<close> and \<^verbatim>\<open>threshold = -1\<close> the range is present and greater
  than the threshold, and the call returns a clip.
\<close>

theorem limit_dark_zero_range_no_error_counterexample:
  "(0::real) > - 1
   \<and> request (limit_dark [0.5] [''primary''] [''secondary''] (- 1) (Some 0)) 0
       = Inr (Some ''primary'')"
  by (simp add: limit_dark_def FrameEval_def diff_def truthy_def get_frame_def)

text \<open>
  C8, amended. \<^verbatim>\<open>limit_dark\<close> raises \<^verbatim>\<open>ValueError\<close> if and only if
  \<^verbatim>\<open>threshold_range\<close> is present, is not zero and is greater than
  \<^verbatim>\<open>threshold\<close>. The error is the result of the call itself, whatever the clips and
  the averages are: no lazy clip is returned and no per-element decision is made.
\<close>

theorem limit_dark_value_error:
  "(limit_dark avg clip filtered threshold threshold_range = Inl ValueError)
     = (\<exists>tr. threshold_range = Some tr \<and> tr \<noteq> 0 \<and> tr > threshold)"
  by (cases threshold_range) (simp_all add: limit_dark_def truthy_def)

text \<open>
  C10. With \<^verbatim>\<open>threshold_range = 0\<close>, \<^verbatim>\<open>limit_dark\<close> behaves as with
  \<^verbatim>\<open>threshold_range\<close> absent: the configuration check is skipped, so that no
  \<^verbatim>\<open>ValueError\<close> is raised whatever the threshold is (also when it is negative, that
  is below the range), and at every index \<open>n\<close> the single-threshold rule decides (primary
  if \<open>metrics[n] > threshold\<close>, filtered otherwise), not the band rule.
\<close>

theorem limit_dark_zero_range_absent:
  assumes "n < length clip" "length avg = length clip" "length filtered = length clip"
  shows "limit_dark avg clip filtered threshold (Some 0) = limit_dark avg clip filtered threshold None
         \<and> limit_dark avg clip filtered threshold (Some 0) \<noteq> Inl ValueError
         \<and> request (limit_dark avg clip filtered threshold (Some 0)) n
             = Inr (Some (if avg ! n > threshold then clip ! n else filtered ! n))"
  using assms
  by (simp add: limit_dark_def FrameEval_def diff_def truthy_def get_frame_in_range)

theorem limit_dark_zero_range_absent_witness:
  "(0::real) > - 1
   \<and> limit_dark [- 2, 0.5] [''p0'', ''p1''] [''s0'', ''s1''] (- 1) (Some 0) \<noteq> Inl ValueError
   \<and> request (limit_dark [- 2, 0.5] [''p0'', ''p1''] [''s0'', ''s1''] (- 1) (Some 0)) 0
       = Inr (Some ''s0'')"
proof -
  have h1: "0 < length [''p0'', ''p1'']"
    by simp
  have h2: "length [- 2, 0.5 :: real] = length [''p0'', ''p1'']"
    by simp
  have h3: "length [''s0'', ''s1''] = length [''p0'', ''p1'']"
    by simp
  have "limit_dark [- 2, 0.5] [''p0'', ''p1''] [''s0'', ''s1''] (- 1) (Some 0) \<noteq> Inl ValueError
        \<and> request (limit_dark [- 2, 0.5] [''p0'', ''p1''] [''s0'', ''s1''] (- 1) (Some 0)) 0
            = Inr (Some (if [- 2, 0.5] ! 0 > (- 1 :: real) then [''p0'', ''p1''] ! 0
                         else [''s0'', ''s1''] ! 0))"
    using limit_dark_zero_range_absent[OF h1 h2 h3, of "- 1"] by (rule conjunct2)
  then show ?thesis
    by simp
qed

section \<open>frames_since_bookmark on sorted bookmarks\<close>

text \<open>
  In a sorted list, an entry at most \<open>n\<close> with only entries greater than \<open>n\<close> after it
  is the greatest entry at most \<open>n\<close>.
\<close>

lemma greatest_bookmark:
  assumes srt: "sorted bs" and k: "k < length bs" and le: "bs ! k \<le> n"
    and later: "\<And>j. k < j \<Longrightarrow> j < length bs \<Longrightarrow> n < bs ! j"
  shows "Max {b \<in> set bs. b \<le> n} = bs ! k"
proof (rule Max_eqI)
  show "finite {b \<in> set bs. b \<le> n}"
    by simp
  show "bs ! k \<in> {b \<in> set bs. b \<le> n}"
    using k le by simp
  fix y
  assume "y \<in> {b \<in> set bs. b \<le> n}"
  then obtain j where j: "j < length bs" "bs ! j = y" and yn: "y \<le> n"
    by (auto simp add: in_set_conv_nth)
  have "\<not> k < j"
    using later[of j] j yn by auto
  then have "j \<le> k"
    by simp
  then have "bs ! j \<le> bs ! k"
    using srt k by (simp add: sorted_nth_mono)
  then show "y \<le> bs ! k"
    using j by simp
qed

text \<open>
  The loop, entered at index \<open>k\<close> with \<open>bookmarks[k] \<le> n\<close>: it passes over the entries
  whose successor is still at most \<open>n\<close>, and assigns \<^verbatim>\<open>result\<close> at the first entry
  that is the last one or has a successor greater than \<open>n\<close>.
\<close>

lemma since_loop_sorted:
  assumes srt: "sorted bs"
  shows "k < length bs \<Longrightarrow> bs ! k \<le> n \<Longrightarrow>
         since_loop n bs (enumerate k (drop k bs)) result = Some (n - Max {b \<in> set bs. b \<le> n})"
proof (induction "length bs - k" arbitrary: k result)
  case 0
  then show ?case by simp
next
  case (Suc m)
  have unfold: "enumerate k (drop k bs) = (k, bs ! k) # enumerate (Suc k) (drop (Suc k) bs)"
    using Suc.prems(1) by (simp add: Cons_nth_drop_Suc[symmetric])
  show ?case
  proof (cases "Suc k < length bs")
    case False
    then have emp: "drop (Suc k) bs = []"
      by simp
    have "Max {b \<in> set bs. b \<le> n} = bs ! k"
      using srt Suc.prems False by (intro greatest_bookmark) simp_all
    then show ?thesis
      using Suc.prems False by (simp add: unfold emp)
  next
    case True
    show ?thesis
    proof (cases "n < bs ! Suc k")
      case stop: True
      have "n < bs ! j" if "k < j" "j < length bs" for j
      proof -
        have "bs ! Suc k \<le> bs ! j"
          using srt that by (simp add: sorted_nth_mono Suc_leI)
        then show ?thesis
          using stop by simp
      qed
      then have "Max {b \<in> set bs. b \<le> n} = bs ! k"
        using srt Suc.prems by (intro greatest_bookmark) simp_all
      then show ?thesis
        using Suc.prems True stop by (simp add: unfold)
    next
      case False
      have m: "m = length bs - Suc k"
        using Suc.hyps(2) by simp
      have "since_loop n bs (enumerate (Suc k) (drop (Suc k) bs)) result
              = Some (n - Max {b \<in> set bs. b \<le> n})"
        using m True False by (intro Suc.hyps(1)) simp_all
      then show ?thesis
        using Suc.prems True False by (simp add: unfold)
    qed
  qed
qed

text \<open>
  C9. For every non-decreasing bookmark list whose first element is at most \<open>n\<close>, the
  value computed by \<^verbatim>\<open>frames_since_bookmark\<close> is \<open>n\<close> minus the greatest bookmark
  \<open>b\<close> with \<open>b \<le> n\<close>; in particular it is \<open>2\<close> for \<open>n = 7\<close> and for \<open>n = 12\<close> with
  the bookmarks \<open>[0, 5, 10]\<close>.
\<close>

theorem frames_since_bookmark_greatest:
  assumes "sorted bookmarks" "bookmarks \<noteq> []" "hd bookmarks \<le> n"
  shows "frames_since_bookmark n bookmarks = Inr (n - Max {b \<in> set bookmarks. b \<le> n})
         \<and> frames_since_bookmark 7 [0, 5, 10] = Inr 2
         \<and> frames_since_bookmark 12 [0, 5, 10] = Inr 2"
proof -
  have "0 < length bookmarks" "bookmarks ! 0 \<le> n"
    using assms(2,3) by (simp_all add: hd_conv_nth)
  then have "since_loop n bookmarks (enumerate 0 (drop 0 bookmarks)) None
               = Some (n - Max {b \<in> set bookmarks. b \<le> n})"
    by (rule since_loop_sorted[OF assms(1)])
  then have "frames_since_bookmark n bookmarks = Inr (n - Max {b \<in> set bookmarks. b \<le> n})"
    by (simp add: frames_since_bookmark_def)
  moreover have "frames_since_bookmark 7 [0, 5, 10] = Inr 2"
    by (simp add: frames_since_bookmark_def)
  moreover have "frames_since_bookmark 12 [0, 5, 10] = Inr 2"
    by (simp add: frames_since_bookmark_def)
  ultimately show ?thesis
    by simp
qed

theorem frames_since_bookmark_greatest_witness:
  "sorted [0, 5, 10 :: int] \<and> [0, 5, 10 :: int] \<noteq> [] \<and> hd [0, 5, 10 :: int] \<le> 7
   \<and> Max {b \<in> set [0, 5, 10 :: int]. b \<le> 7} = 5
   \<and> frames_since_bookmark 7 [0, 5, 10] = Inr (7 - 5)"
proof -
  have h1: "sorted [0, 5, 10 :: int]"
    by simp
  have h2: "[0, 5, 10 :: int] \<noteq> []"
    by simp
  have h3: "hd [0, 5, 10 :: int] \<le> 7"
    by simp
  have "{b \<in> set [0, 5, 10 :: int]. b \<le> 7} = {0, 5}"
    by auto
  then have mx: "Max {b \<in> set [0, 5, 10 :: int]. b \<le> 7} = 5"
    by simp
  have "frames_since_bookmark 7 [0, 5, 10]
          = Inr (7 - Max {b \<in> set [0, 5, 10 :: int]. b \<le> 7})"
    using frames_since_bookmark_greatest[OF h1 h2 h3] by (rule conjunct1)
  then have "frames_since_bookmark 7 [0, 5, 10] = Inr (7 - 5)"
    by (simp only: mx)
  then show ?thesis
    using h1 h2 h3 mx by blast
qed

end
